theory Spec2Isabelle
  imports Complex_Main
begin

section \<open>The graphic view of LibreCAD: viewport, view history and layered drawing\<close>

text \<open>
  A shallow embedding of \<^verbatim>\<open>librecad/src/lib/gui/rs_graphicview.cpp\<close>.

  Numbers. A C++ \<^verbatim>\<open>double\<close> is modelled by \<^typ>\<open>real\<close> and a C++ \<^verbatim>\<open>int\<close> by
  \<^typ>\<open>int\<close>: the arithmetic of the model is exact. Rounding of floating point values
  and overflow of machine integers (undefined for a signed C++ integer) are outside the
  model, with one exception: the two maps from model to screen coordinates are given a
  second time with the rounding of \<^verbatim>\<open>double\<close> arithmetic (\<open>toGuiX_double\<close>,
  \<open>toGuiY_double\<close>). The counters of the view history are \<^typ>\<open>nat\<close>; the source only ever
  increments them below the number of slots, decrements them above zero and reduces
  them modulo the number of slots, so they do not wrap.

  Undefined behaviour that the source can reach on the modelled data (indexing a vector
  out of range, dividing an integer by zero, dereferencing a null pointer) is the result
  \<open>None\<close>.
\<close>

subsection \<open>Data\<close>

text \<open>
  Modelled from the spec: \<^verbatim>\<open>RS_Vector\<close> is declared outside this file; the spec
  speaks of affine arithmetic on coordinates. The view uses the \<^verbatim>\<open>x\<close> and \<^verbatim>\<open>y\<close>
  components of a vector, the difference of two vectors, the quotient of a vector by a
  number and \<^verbatim>\<open>scale\<close>, all of them component-wise.
\<close>

record RS_Vector =
  vec_x :: real
  vec_y :: real

definition vminus :: "RS_Vector \<Rightarrow> RS_Vector \<Rightarrow> RS_Vector" where
  "vminus a b = \<lparr>vec_x = vec_x a - vec_x b, vec_y = vec_y a - vec_y b\<rparr>"

definition vdiv :: "RS_Vector \<Rightarrow> real \<Rightarrow> RS_Vector" where
  "vdiv a s = \<lparr>vec_x = vec_x a / s, vec_y = vec_y a / s\<rparr>"

definition scale :: "RS_Vector \<Rightarrow> RS_Vector \<Rightarrow> RS_Vector" where
  "scale a f = \<lparr>vec_x = vec_x a * vec_x f, vec_y = vec_y a * vec_y f\<rparr>"

datatype EntityType = EntityGraphic | EntityContainer | EntityBlock

text \<open>
  What the view reads from the \<^verbatim>\<open>RS_Graphic\<close> that \<^verbatim>\<open>container->getGraphic()\<close>
  returns: one field for each accessor called in this file.
\<close>

record RS_Graphic =
  isGridOn_graphic :: bool
  getPaperScale :: real
  getPaperInsertionBase :: RS_Vector
  getPrintAreaSize :: RS_Vector
  getMarginLeftInUnits :: real
  getMarginTopInUnits :: real
  getMarginRightInUnits :: real
  getMarginBottomInUnits :: real
  getPagesNumHoriz :: int
  getPagesNumVert :: int

text \<open>
  The entity container shown by the view. \<open>getMin\<close>, \<open>getMax\<close> and \<open>getSize\<close> are what
  the accessors of these names return; \<open>rtti\<close> is its run-time type; \<open>modified\<close> is the
  flag that \<^verbatim>\<open>setModified\<close> sets when the container is a graphic; \<open>getGraphic\<close> is the
  graphic that \<^verbatim>\<open>container->getGraphic()\<close> finds (\<open>None\<close> for the null pointer).
\<close>

record RS_EntityContainer =
  getMin :: RS_Vector
  getMax :: RS_Vector
  getSize :: RS_Vector
  rtti :: EntityType
  modified :: bool
  getGraphic :: "RS_Graphic option"

text \<open>The grid object of the view: one field for each accessor called in this file.\<close>

record RS_Grid =
  getMetaX :: "real list"
  getMetaY :: "real list"
  getPoints :: "RS_Vector list"
  getCellVector :: RS_Vector
  getMetaGridWidth :: RS_Vector
  isIsometric :: bool
  getInfo :: string

datatype RS_Color = RS_Color int int int | Qt_gray

text \<open>
  Calls of the view into its host widget: the virtual hooks
  \<^verbatim>\<open>adjustOffsetControls\<close>, \<^verbatim>\<open>adjustZoomControls\<close>, \<^verbatim>\<open>redraw\<close> and
  \<^verbatim>\<open>updateGridStatusWidget\<close>, and the signal \<^verbatim>\<open>previous_zoom_state\<close>. Their
  implementations are not part of this file; the model records each call in the order
  it is made and gives it no effect on the fields of the view.
\<close>

datatype gui_call =
  AdjustOffsetControls
  | AdjustZoomControls
  | Redraw
  | UpdateGridStatusWidget string
  | Emit_previous_zoom_state bool

text \<open>
  The state of an \<^verbatim>\<open>RS_GraphicView\<close>. \<open>getWidth\<close> and \<open>getHeight\<close> are what the pure
  virtual accessors of the host widget return. \<open>previousViewTime\<close> is a \<^verbatim>\<open>QDateTime\<close>,
  in milliseconds. An entry of \<open>savedViews\<close> is the tuple
  \<^verbatim>\<open>(offsetX, offsetY, factor)\<close>.
\<close>

record RS_GraphicView =
  offsetX :: int
  offsetY :: int
  factor :: RS_Vector
  getWidth :: int
  getHeight :: int
  borderLeft :: int
  borderTop :: int
  borderRight :: int
  borderBottom :: int
  zoomFrozen :: bool
  container :: "RS_EntityContainer option"
  savedViews :: "(int \<times> int \<times> RS_Vector) list"
  savedViewIndex :: nat
  savedViewCount :: nat
  previousViewTime :: int
  printPreview :: bool
  draftMode :: bool
  gridType :: int
  grid :: RS_Grid
  gridColor :: RS_Color
  metaGridColor :: RS_Color
  gui_calls :: "gui_call list"

definition call_gui :: "gui_call \<Rightarrow> RS_GraphicView \<Rightarrow> RS_GraphicView" where
  "call_gui c v = v\<lparr>gui_calls := gui_calls v @ [c]\<rparr>"

subsection \<open>Zoom factors\<close>

definition setFactorX :: "real \<Rightarrow> RS_GraphicView \<Rightarrow> RS_GraphicView" where
  "setFactorX f v =
     (if \<not> zoomFrozen v then v\<lparr>factor := (factor v)\<lparr>vec_x := \<bar>f\<bar>\<rparr>\<rparr> else v)"

definition setFactorY :: "real \<Rightarrow> RS_GraphicView \<Rightarrow> RS_GraphicView" where
  "setFactorY f v =
     (if \<not> zoomFrozen v then v\<lparr>factor := (factor v)\<lparr>vec_y := \<bar>f\<bar>\<rparr>\<rparr> else v)"

definition freezeZoom :: "bool \<Rightarrow> RS_GraphicView \<Rightarrow> RS_GraphicView" where
  "freezeZoom freeze v = v\<lparr>zoomFrozen := freeze\<rparr>"

subsection \<open>Coordinate transforms\<close>

definition toGuiX :: "RS_GraphicView \<Rightarrow> real \<Rightarrow> real" where
  "toGuiX v x = x * vec_x (factor v) + real_of_int (offsetX v)"

definition toGuiY :: "RS_GraphicView \<Rightarrow> real \<Rightarrow> real" where
  "toGuiY v y = - y * vec_y (factor v) + real_of_int (getHeight v) - real_of_int (offsetY v)"

definition toGui :: "RS_GraphicView \<Rightarrow> RS_Vector \<Rightarrow> RS_Vector" where
  "toGui v p = \<lparr>vec_x = toGuiX v (vec_x p), vec_y = toGuiY v (vec_y p)\<rparr>"

text \<open>
  \<^verbatim>\<open>toGraphX\<close> and \<^verbatim>\<open>toGraphY\<close> take an \<^verbatim>\<open>int\<close>: the sum in the numerator is
  computed on integers and converted for the division by the \<^verbatim>\<open>double\<close> factor.
  For a zero factor the C++ quotient is an infinity or a NaN and the quotient of
  \<^typ>\<open>real\<close> is \<open>0\<close>: the model says nothing about the source there.
\<close>

definition toGraphX :: "RS_GraphicView \<Rightarrow> int \<Rightarrow> real" where
  "toGraphX v x = real_of_int (x - offsetX v) / vec_x (factor v)"

definition toGraphY :: "RS_GraphicView \<Rightarrow> int \<Rightarrow> real" where
  "toGraphY v y = real_of_int (- (y - getHeight v + offsetY v)) / vec_y (factor v)"

subsection \<open>Centering\<close>

text \<open>The conversion \<^verbatim>\<open>(int)\<close> of a \<^verbatim>\<open>double\<close> truncates towards zero.\<close>

definition int_cast :: "real \<Rightarrow> int" where
  "int_cast r = (if r < 0 then \<lceil>r\<rceil> else \<lfloor>r\<rfloor>)"

definition centerOffsetX :: "RS_GraphicView \<Rightarrow> RS_GraphicView" where
  "centerOffsetX v =
     (case container v of
        None \<Rightarrow> v
      | Some c \<Rightarrow>
          if \<not> zoomFrozen v then
            v\<lparr>offsetX :=
                int_cast ((real_of_int (getWidth v - borderLeft v - borderRight v)
                           - vec_x (getSize c) * vec_x (factor v)) / 2
                          - vec_x (getMin c) * vec_x (factor v))
                + borderLeft v\<rparr>
          else v)"

definition centerOffsetY :: "RS_GraphicView \<Rightarrow> RS_GraphicView" where
  "centerOffsetY v =
     (case container v of
        None \<Rightarrow> v
      | Some c \<Rightarrow>
          if \<not> zoomFrozen v then
            v\<lparr>offsetY :=
                int_cast ((real_of_int (getHeight v - borderTop v - borderBottom v)
                           - vec_y (getSize c) * vec_y (factor v)) / 2
                          - vec_y (getMin c) * vec_y (factor v))
                + borderBottom v\<rparr>
          else v)"

subsection \<open>The view history\<close>

text \<open>
  \<^verbatim>\<open>RS_GraphicView::getGraphic\<close>: the container itself, when it is a graphic.
\<close>

definition view_getGraphic :: "RS_GraphicView \<Rightarrow> RS_EntityContainer option" where
  "view_getGraphic v =
     (case container v of
        None \<Rightarrow> None
      | Some c \<Rightarrow> if rtti c = EntityGraphic then Some c else None)"

text \<open>
  \<^verbatim>\<open>saveView\<close> reads the clock twice; \<open>now1\<close> and \<open>now2\<close> are the two readings of
  \<^verbatim>\<open>QDateTime::currentDateTime()\<close>, in milliseconds. Writing
  \<^verbatim>\<open>savedViews[savedViewIndex]\<close> out of range is undefined: \<open>None\<close>.
\<close>

definition saveView :: "int \<Rightarrow> int \<Rightarrow> RS_GraphicView \<Rightarrow> RS_GraphicView option" where
  "saveView now1 now2 v =
     (let v1 = (case view_getGraphic v of
                  Some g \<Rightarrow> v\<lparr>container := Some (g\<lparr>modified := True\<rparr>)\<rparr>
                | None \<Rightarrow> v);
          noUpdateWindow = now1 - 500
      in if previousViewTime v1 > noUpdateWindow then Some v1
         else
           let v2 = v1\<lparr>previousViewTime := now2\<rparr> in
           if savedViewIndex v2 < length (savedViews v2) then
             let v3 = v2\<lparr>savedViews :=
                          (savedViews v2)[savedViewIndex v2 :=
                             (offsetX v2, offsetY v2, factor v2)]\<rparr>;
                 v4 = v3\<lparr>savedViewIndex :=
                          (savedViewIndex v3 + 1) mod length (savedViews v3)\<rparr>;
                 v5 = (if savedViewCount v4 < length (savedViews v4)
                       then v4\<lparr>savedViewCount := savedViewCount v4 + 1\<rparr> else v4)
             in Some (if savedViewCount v5 = 1
                      then call_gui (Emit_previous_zoom_state True) v5 else v5)
           else None)"

text \<open>
  \<^verbatim>\<open>restoreView\<close>. The remainder by \<^verbatim>\<open>savedViews.size()\<close> is undefined for an empty
  vector: \<open>None\<close>. With a slot, the new index is below the size and the read is in range.
\<close>

definition restoreView :: "RS_GraphicView \<Rightarrow> RS_GraphicView option" where
  "restoreView v =
     (if savedViewCount v = 0 then Some v
      else
        let v1 = v\<lparr>savedViewCount := savedViewCount v - 1\<rparr>;
            v2 = (if savedViewCount v1 = 0
                  then call_gui (Emit_previous_zoom_state False) v1 else v1)
        in if length (savedViews v2) = 0 then None
           else
             let v3 = v2\<lparr>savedViewIndex :=
                          (savedViewIndex v2 + length (savedViews v2) - 1)
                            mod length (savedViews v2)\<rparr>;
                 sv = savedViews v3 ! savedViewIndex v3;
                 v4 = v3\<lparr>offsetX := fst sv\<rparr>;
                 v5 = v4\<lparr>offsetY := fst (snd sv)\<rparr>;
                 v6 = v5\<lparr>factor := snd (snd sv)\<rparr>
             in Some (call_gui Redraw
                       (call_gui AdjustZoomControls
                         (call_gui AdjustOffsetControls v6))))"

definition zoomPrevious :: "RS_GraphicView \<Rightarrow> RS_GraphicView option" where
  "zoomPrevious v = (case container v of None \<Rightarrow> Some v | Some c \<Rightarrow> restoreView v)"

text \<open>
  Modelled from the spec: the initial values of \<^verbatim>\<open>savedViewIndex\<close> and
  \<^verbatim>\<open>savedViewCount\<close> are given in the class declaration, which is not in this file;
  the spec's fixed-size circular buffer starts empty, with both at \<open>0\<close>. The constructor,
  which is in this file, allocates the sixteen slots. This is the state after the
  constructor, as far as the history goes.
\<close>

definition constructed :: "RS_GraphicView \<Rightarrow> bool" where
  "constructed v \<longleftrightarrow>
     length (savedViews v) = 16 \<and> savedViewIndex v = 0 \<and> savedViewCount v = 0"

datatype history_call = SaveView int int | RestoreView

fun history_step :: "history_call \<Rightarrow> RS_GraphicView \<Rightarrow> RS_GraphicView option" where
  "history_step (SaveView now1 now2) v = saveView now1 now2 v"
| "history_step RestoreView v = restoreView v"

fun history_run :: "history_call list \<Rightarrow> RS_GraphicView \<Rightarrow> RS_GraphicView option" where
  "history_run [] v = Some v"
| "history_run (c # cs) v =
     (case history_step c v of None \<Rightarrow> None | Some v' \<Rightarrow> history_run cs v')"

subsection \<open>Zoom to fit\<close>

text \<open>
  \<^verbatim>\<open>zoomAuto\<close>. The constants \<^verbatim>\<open>RS_TOLERANCE\<close> and \<^verbatim>\<open>RS_MAXDOUBLE\<close> and the
  member \<^verbatim>\<open>calculateBorders\<close> of the container are declared outside this file and are
  parameters here, as are the two clock readings of the \<^verbatim>\<open>saveView\<close> it calls.
  \<open>sx\<close> and \<open>sy\<close> are the extent of the drawing (\<open>zoomAuto_sx\<close> and \<open>zoomAuto_sy\<close>
  are the two branches on \<^verbatim>\<open>axis\<close> that compute them), \<open>fx0\<close> and \<open>fy0\<close> the factors that
  fit its width and its height, \<open>fx1\<close> and \<open>fy1\<close> the factors after the
  \<^verbatim>\<open>switch\<close>, \<open>fx2\<close> and \<open>fy2\<close> those after the exclusion of invalid factors.
  The calls of \<^verbatim>\<open>RS_DEBUG->print\<close> write to the debug log only and are left out.
\<close>

definition zoomAuto_sx :: "bool \<Rightarrow> RS_EntityContainer \<Rightarrow> real" where
  "zoomAuto_sx axis c =
     (if axis then max (vec_x (vminus (getMax c) (getMin c))) 0 else vec_x (getSize c))"

definition zoomAuto_sy :: "bool \<Rightarrow> RS_EntityContainer \<Rightarrow> real" where
  "zoomAuto_sy axis c =
     (if axis then max (vec_y (vminus (getMax c) (getMin c))) 0 else vec_y (getSize c))"

definition zoomAuto ::
  "real \<Rightarrow> real \<Rightarrow> (RS_EntityContainer \<Rightarrow> RS_EntityContainer) \<Rightarrow> int \<Rightarrow> int
     \<Rightarrow> bool \<Rightarrow> bool \<Rightarrow> RS_GraphicView \<Rightarrow> RS_GraphicView option" where
  "zoomAuto RS_TOLERANCE RS_MAXDOUBLE calculateBorders now1 now2 axis keepAspectRatio v =
     (case container v of
        None \<Rightarrow> Some v
      | Some c0 \<Rightarrow>
          let c = calculateBorders c0;
              w = v\<lparr>container := Some c\<rparr>;
              sx = zoomAuto_sx axis c;
              sy = zoomAuto_sy axis c;
              fx0 = (if sx > RS_TOLERANCE
                     then real_of_int (getWidth w - borderLeft w - borderRight w) / sx
                     else 1);
              fFlags0 = (if sx > RS_TOLERANCE then 0 else 1 :: nat);
              fy0 = (if sy > RS_TOLERANCE
                     then real_of_int (getHeight w - borderTop w - borderBottom w) / sy
                     else 1);
              fFlags1 = (if sy > RS_TOLERANCE then fFlags0 else fFlags0 + 2)
          in if fFlags1 = 3 then Some w
             else
               let fx1 = (if fFlags1 = 1 then fy0
                          else if fFlags1 = 2 then fx0
                          else if keepAspectRatio then min fx0 fy0 else fx0);
                   fy1 = (if fFlags1 = 1 then fy0
                          else if fFlags1 = 2 then fx0
                          else if keepAspectRatio then min fx0 fy0 else fy0);
                   xInvalid = (fx1 < RS_TOLERANCE \<or> fx1 > RS_MAXDOUBLE);
                   fx2 = (if xInvalid then 1 else fx1);
                   fFlags2 = (if xInvalid then 1 else 0 :: nat);
                   yInvalid = (fy1 < RS_TOLERANCE \<or> fy1 > RS_MAXDOUBLE);
                   fy2 = (if yInvalid then 1 else fy1);
                   fFlags3 = (if yInvalid then fFlags2 + 2 else fFlags2)
               in if fFlags3 = 3 then Some w
                  else
                    (case saveView now1 now2 w of
                       None \<Rightarrow> None
                     | Some w1 \<Rightarrow>
                         Some (call_gui Redraw
                                (call_gui AdjustOffsetControls
                                  (centerOffsetY
                                    (centerOffsetX
                                      (call_gui AdjustZoomControls
                                        (setFactorY fy2 (setFactorX fx2 w1)))))))))"

subsection \<open>The painter\<close>

text \<open>
  \<^verbatim>\<open>RS_Painter\<close> is the abstract painter of the host. The model keeps its current pen
  (what \<^verbatim>\<open>getPen\<close> returns), the bounding rectangle that \<^verbatim>\<open>drawText\<close> reports back
  for a rectangle and a text, and the list of the calls made on it, oldest first. Each
  call is recorded with the member function of the view that made it. \<open>FillRect\<close>
  records the arguments as the view passes them, before their conversion to the
  parameter types of the painter.
\<close>

datatype LineWidth = Width00 | Width01 | WidthOther int

datatype LineType = SolidLine | DotLineTiny | LineTypeOther int

record RS_Pen =
  pen_color :: RS_Color
  pen_width :: LineWidth
  pen_lineType :: LineType

record QRect =
  rect_x :: int
  rect_y :: int
  rect_width :: int
  rect_height :: int

datatype painter_call =
  SetPen RS_Pen
  | SetPenColor RS_Color
  | DrawLine RS_Vector RS_Vector
  | DrawGridPoint RS_Vector
  | FillRect real real real real RS_Color
  | DrawText QRect string

datatype member = in_drawLayer1 | in_drawPaper | in_drawMetaGrid | in_drawGrid | in_drawDraftSign

record RS_Painter =
  getPen :: RS_Pen
  textBoundingRect :: "QRect \<Rightarrow> string \<Rightarrow> QRect"
  calls :: "(member \<times> painter_call) list"

definition record_call :: "member \<Rightarrow> painter_call \<Rightarrow> RS_Painter \<Rightarrow> RS_Painter" where
  "record_call m c p = p\<lparr>calls := calls p @ [(m, c)]\<rparr>"

definition setPen :: "member \<Rightarrow> RS_Pen \<Rightarrow> RS_Painter \<Rightarrow> RS_Painter" where
  "setPen m pen p = record_call m (SetPen pen) (p\<lparr>getPen := pen\<rparr>)"

definition setPenColor :: "member \<Rightarrow> RS_Color \<Rightarrow> RS_Painter \<Rightarrow> RS_Painter" where
  "setPenColor m c p = record_call m (SetPenColor c) (p\<lparr>getPen := (getPen p)\<lparr>pen_color := c\<rparr>\<rparr>)"

definition drawLine :: "member \<Rightarrow> RS_Vector \<Rightarrow> RS_Vector \<Rightarrow> RS_Painter \<Rightarrow> RS_Painter" where
  "drawLine m a b p = record_call m (DrawLine a b) p"

definition drawGridPoint :: "member \<Rightarrow> RS_Vector \<Rightarrow> RS_Painter \<Rightarrow> RS_Painter" where
  "drawGridPoint m a p = record_call m (DrawGridPoint a) p"

definition fillRect ::
  "member \<Rightarrow> real \<Rightarrow> real \<Rightarrow> real \<Rightarrow> real \<Rightarrow> RS_Color \<Rightarrow> RS_Painter \<Rightarrow> RS_Painter" where
  "fillRect m x1 y1 w h col p = record_call m (FillRect x1 y1 w h col) p"

definition drawText :: "member \<Rightarrow> QRect \<Rightarrow> string \<Rightarrow> RS_Painter \<Rightarrow> QRect \<times> RS_Painter" where
  "drawText m r t p = (textBoundingRect p r t, record_call m (DrawText r t) p)"

text \<open>
  What the drawing reads from its host besides the painter: the member
  \<^verbatim>\<open>updatePointArray\<close> of the grid (which reads the view it belongs to), the
  resolution of the first screen, and the translation \<^verbatim>\<open>tr\<close> of a text.
\<close>

record host =
  updatePointArray :: "RS_GraphicView \<Rightarrow> RS_Grid \<Rightarrow> RS_Grid"
  logicalDotsPerInch :: real
  tr :: "string \<Rightarrow> string"

subsection \<open>Numeric helpers of the drawing code\<close>

text \<open>Integer division of C++ truncates towards zero.\<close>

definition int_quot :: "int \<Rightarrow> int \<Rightarrow> int" where
  "int_quot a b = sgn a * sgn b * (\<bar>a\<bar> div \<bar>b\<bar>)"

text \<open>\<^verbatim>\<open>std::round\<close> rounds to the nearest integer, halfway cases away from zero.\<close>

definition std_round :: "real \<Rightarrow> int" where
  "std_round r = (if 0 \<le> r then \<lfloor>r + 1 / 2\<rfloor> else \<lceil>r - 1 / 2\<rceil>)"

text \<open>
  \<^verbatim>\<open>std::remainder x y\<close> is \<open>x - n * y\<close> for the integer \<open>n\<close> nearest to \<open>x / y\<close>,
  the even one in a halfway case.
\<close>

definition nearest_even :: "real \<Rightarrow> int" where
  "nearest_even q =
     (let f = \<lfloor>q\<rfloor>; d = q - real_of_int f
      in if d < 1 / 2 then f else if 1 / 2 < d then f + 1 else if even f then f else f + 1)"

definition remainder :: "real \<Rightarrow> real \<Rightarrow> real" where
  "remainder x y = x - real_of_int (nearest_even (x / y)) * y"

subsection \<open>Drawing the first layer\<close>

definition isGridOn :: "RS_GraphicView \<Rightarrow> bool" where
  "isGridOn v =
     (case container v of
        None \<Rightarrow> True
      | Some c \<Rightarrow> (case getGraphic c of None \<Rightarrow> True | Some graphic \<Rightarrow> isGridOn_graphic graphic))"

text \<open>
  \<^verbatim>\<open>drawPaper\<close>. The graphic is dereferenced unchecked (\<open>None\<close> for the null pointer),
  and the number of pages divides an integer (\<open>None\<close> for zero).
\<close>

definition drawPaper :: "RS_GraphicView \<Rightarrow> RS_Painter \<Rightarrow> RS_Painter option" where
  "drawPaper v p =
     (case container v of
        None \<Rightarrow> Some p
      | Some c \<Rightarrow>
         (case getGraphic c of
            None \<Rightarrow> None
          | Some graphic \<Rightarrow>
              if getPaperScale graphic < 1 / 10 ^ 6 then Some p
              else
                let p1 = setPenColor in_drawPaper Qt_gray p;
                    pinsbase = getPaperInsertionBase graphic;
                    printAreaSize = getPrintAreaSize graphic;
                    scl = getPaperScale graphic;
                    v1 = toGui v (vdiv (vminus \<lparr>vec_x = 0, vec_y = 0\<rparr> pinsbase) scl);
                    v2 = toGui v (vdiv (vminus printAreaSize pinsbase) scl);
                    marginLeft = int_cast (getMarginLeftInUnits graphic * vec_x (factor v) / scl);
                    marginTop = int_cast (getMarginTopInUnits graphic * vec_y (factor v) / scl);
                    marginRight = int_cast (getMarginRightInUnits graphic * vec_x (factor v) / scl);
                    marginBottom = int_cast (getMarginBottomInUnits graphic * vec_y (factor v) / scl);
                    printAreaW = int_cast (vec_x v2 - vec_x v1);
                    printAreaH = int_cast (vec_y v2 - vec_y v1);
                    paperX1 = int_cast (vec_x v1);
                    paperY1 = int_cast (vec_y v1);
                    paperW = printAreaW + marginLeft + marginRight;
                    paperH = printAreaH - marginTop - marginBottom;
                    numX = getPagesNumHoriz graphic;
                    numY = getPagesNumVert graphic;
                    p2 = fillRect in_drawPaper 0 0 (real_of_int (getWidth v))
                           (real_of_int (getHeight v)) (RS_Color 200 200 200) p1;
                    p3 = fillRect in_drawPaper (real_of_int (paperX1 + 6))
                           (real_of_int (paperY1 + 6)) (real_of_int paperW) (real_of_int paperH)
                           (RS_Color 64 64 64) p2;
                    p4 = fillRect in_drawPaper (real_of_int paperX1) (real_of_int paperY1)
                           (real_of_int paperW) (real_of_int paperH) (RS_Color 64 64 64) p3;
                    p5 = fillRect in_drawPaper (real_of_int (paperX1 + 1))
                           (real_of_int (paperY1 - 1)) (real_of_int (paperW - 2))
                           (real_of_int (paperH + 2)) (RS_Color 180 180 180) p4;
                    p6 = fillRect in_drawPaper (real_of_int (paperX1 + 1 + marginLeft))
                           (real_of_int (paperY1 - 1 - marginBottom)) (real_of_int (printAreaW - 2))
                           (real_of_int (printAreaH + 2)) (RS_Color 255 255 255) p5
                in if numX = 0 \<or> numY = 0 then None
                   else if min \<bar>int_quot printAreaW numX\<bar> \<bar>int_quot printAreaH numY\<bar> > 2 then
                     let p7 = fold (\<lambda>pX. fillRect in_drawPaper
                                     (real_of_int (paperX1 + marginLeft)
                                        + real_of_int printAreaW * real_of_int pX / real_of_int numX)
                                     (real_of_int paperY1) 1 (real_of_int paperH)
                                     (RS_Color 64 64 64))
                                [1..numX - 1] p6;
                         p8 = fold (\<lambda>pY. fillRect in_drawPaper (real_of_int paperX1)
                                     (real_of_int (paperY1 - marginBottom)
                                        + real_of_int printAreaH * real_of_int pY / real_of_int numY)
                                     (real_of_int paperW) 1 (RS_Color 64 64 64))
                                [1..numY - 1] p7
                     in Some p8
                   else Some p6))"

text \<open>
  \<^verbatim>\<open>drawGrid\<close>. The two inner loops run \<^verbatim>\<open>i\<close> and \<^verbatim>\<open>j\<close> from 1 to 9.
\<close>

definition drawGrid :: "RS_GraphicView \<Rightarrow> RS_Painter \<Rightarrow> RS_GraphicView \<times> RS_Painter" where
  "drawGrid v p =
     (let p1 = setPen in_drawGrid
                 \<lparr>pen_color = gridColor v, pen_width = Width00, pen_lineType = SolidLine\<rparr> p;
          gridTypeSolid = (gridType v = 1);
          p2 = (if gridTypeSolid then
                  let cellSize = getCellVector (grid v);
                      pa = fold (\<lambda>x. fold (\<lambda>i.
                                   let subX = x - real_of_int i * vec_x cellSize
                                   in drawLine in_drawGrid
                                        \<lparr>vec_x = toGuiX v subX, vec_y = 0\<rparr>
                                        \<lparr>vec_x = toGuiX v subX, vec_y = real_of_int (getHeight v)\<rparr>)
                                 [1, 2, 3, 4, 5, 6, 7, 8, 9])
                             (getMetaX (grid v)) p1
                  in fold (\<lambda>y. fold (\<lambda>j.
                             let subY = y - real_of_int j * vec_y cellSize
                             in drawLine in_drawGrid
                                  \<lparr>vec_x = 0, vec_y = toGuiY v subY\<rparr>
                                  \<lparr>vec_x = real_of_int (getWidth v), vec_y = toGuiY v subY\<rparr>)
                           [1, 2, 3, 4, 5, 6, 7, 8, 9])
                       (getMetaY (grid v)) pa
                else fold (\<lambda>pt. drawGridPoint in_drawGrid (toGui v pt)) (getPoints (grid v)) p1);
          info = getInfo (grid v)
      in (call_gui (UpdateGridStatusWidget info) v, p2))"

text \<open>
  The loop of \<^verbatim>\<open>drawMetaGrid\<close> that draws the lines of the isometric meta grid, with
  \<^verbatim>\<open>i\<close> counting down to \<open>0\<close>.
\<close>

function isometricLines ::
  "real \<Rightarrow> real \<Rightarrow> int \<Rightarrow> int \<Rightarrow> int
     \<Rightarrow> RS_Vector \<times> RS_Vector \<times> RS_Vector \<times> RS_Vector \<Rightarrow> RS_Painter \<Rightarrow> RS_Painter" where
  "isometricLines dx dy cmx cmy i (vp0, vp1, vp2, vp3) p =
     (if 0 \<le> i then
        let vp0' = (if i \<le> cmx then vp0\<lparr>vec_x := vec_x vp0 + dx\<rparr>
                    else vp0\<lparr>vec_y := vec_y vp0 - dy\<rparr>);
            vp2' = (if i \<le> cmx then vp2\<lparr>vec_y := vec_y vp2 - dy\<rparr>
                    else vp2\<lparr>vec_x := vec_x vp2 - dx\<rparr>);
            vp1' = (if i \<le> cmy then vp1\<lparr>vec_y := vec_y vp1 - dy\<rparr>
                    else vp1\<lparr>vec_x := vec_x vp1 + dx\<rparr>);
            vp3' = (if i \<le> cmy then vp3\<lparr>vec_x := vec_x vp3 - dx\<rparr>
                    else vp3\<lparr>vec_y := vec_y vp3 - dy\<rparr>)
        in isometricLines dx dy cmx cmy (i - 1) (vp0', vp1', vp2', vp3')
             (drawLine in_drawMetaGrid vp2' vp3' (drawLine in_drawMetaGrid vp0' vp1' p))
      else p)"
  by pat_completeness auto
termination
  by (relation "measure (\<lambda>(dx, dy, cmx, cmy, i, vps, p). nat (i + 1))") auto

declare isometricLines.simps [simp del]

text \<open>
  \<^verbatim>\<open>drawMetaGrid\<close>. In the isometric case \<^verbatim>\<open>mx[0]\<close> is read unchecked: \<open>None\<close> when
  \<^verbatim>\<open>mx\<close> is empty.
\<close>

definition drawMetaGrid ::
  "host \<Rightarrow> RS_GraphicView \<Rightarrow> RS_Painter \<Rightarrow> (RS_GraphicView \<times> RS_Painter) option" where
  "drawMetaGrid h v0 p =
     (let v = v0\<lparr>grid := updatePointArray h v0 (grid v0)\<rparr>;
          gridTypeSolid = (gridType v = 1);
          penLineType = (if gridTypeSolid then SolidLine else DotLineTiny);
          p1 = setPen in_drawMetaGrid
                 \<lparr>pen_color = metaGridColor v, pen_width = Width01, pen_lineType = penLineType\<rparr> p;
          dv = scale (getMetaGridWidth (grid v)) (factor v);
          dx = \<bar>vec_x dv\<bar>;
          dy = \<bar>vec_y dv\<bar>;
          mx = getMetaX (grid v);
          p2 = fold (\<lambda>x q.
                  let q1 = drawLine in_drawMetaGrid
                             \<lparr>vec_x = toGuiX v x, vec_y = 0\<rparr>
                             \<lparr>vec_x = toGuiX v x, vec_y = real_of_int (getHeight v)\<rparr> q
                  in if isIsometric (grid v) then
                       drawLine in_drawMetaGrid
                         \<lparr>vec_x = toGuiX v x + 0.5 * dx, vec_y = 0\<rparr>
                         \<lparr>vec_x = toGuiX v x + 0.5 * dx, vec_y = real_of_int (getHeight v)\<rparr> q1
                     else q1)
                mx p1;
          my = getMetaY (grid v)
      in if isIsometric (grid v) then
           (if my = [] \<or> dx < 1 \<or> dy < 1 then Some (v, p2)
            else if mx = [] then None
            else
              let baseMeta = toGui v \<lparr>vec_x = mx ! 0, vec_y = my ! 0\<rparr>;
                  H = real_of_int (getHeight v);
                  W = real_of_int (getWidth v);
                  vp0 = \<lparr>vec_x = - remainder (- vec_x baseMeta) dx - dx,
                         vec_y = H - remainder (H - vec_y baseMeta) dy + dy\<rparr>;
                  vp1 = vp0;
                  vp2 = \<lparr>vec_x = W - remainder (W - vec_x baseMeta) dx + dx, vec_y = vec_y vp0\<rparr>;
                  vp3 = vp2;
                  cmx = std_round ((vec_x vp2 - vec_x vp0) / dx);
                  cmy = std_round ((vec_y vp0 + remainder (- vec_y baseMeta) dy + dy) / dy)
              in Some (v, isometricLines dx dy cmx cmy (cmx + cmy + 2) (vp0, vp1, vp2, vp3) p2))
         else
           Some (v, fold (\<lambda>y. drawLine in_drawMetaGrid
                               \<lparr>vec_x = 0, vec_y = toGuiY v y\<rparr>
                               \<lparr>vec_x = real_of_int (getWidth v), vec_y = toGuiY v y\<rparr>)
                      my p2))"

text \<open>
  \<^verbatim>\<open>drawDraftSign\<close>: the loop runs \<^verbatim>\<open>i\<close> from 1 to 4; bit 0 of \<^verbatim>\<open>i\<close> moves the
  rectangle to the right border and bit 1 to the bottom border.
\<close>

definition drawDraftSign :: "host \<Rightarrow> RS_GraphicView \<Rightarrow> RS_Painter \<Rightarrow> RS_Painter" where
  "drawDraftSign h v p =
     (let draftSign = tr h ''Draft'';
          boundingRect = \<lparr>rect_x = 0, rect_y = 0, rect_width = 64, rect_height = 64\<rparr>
      in snd (fold (\<lambda>i (r, q).
                 case drawText in_drawDraftSign r draftSign q of
                   (r1, q1) \<Rightarrow>
                     (r1\<lparr>rect_x := (if odd (i :: int) then getWidth v - rect_width r1 else 0),
                         rect_y := (if odd (i div 2) then getHeight v - rect_height r1 else 0)\<rparr>,
                      q1))
               [1, 2, 3, 4] (boundingRect, p)))"

text \<open>
  \<^verbatim>\<open>drawLayer1\<close>. The pointer \<^verbatim>\<open>grid\<close> is set by the constructor and never reset, so
  the test \<^verbatim>\<open>grid && isGridOn()\<close> is \<open>isGridOn\<close>.
\<close>

definition drawLayer1 ::
  "host \<Rightarrow> RS_GraphicView \<Rightarrow> RS_Painter \<Rightarrow> (RS_GraphicView \<times> RS_Painter) option" where
  "drawLayer1 h v p =
     (if printPreview v then
        (case drawPaper v p of None \<Rightarrow> None | Some p' \<Rightarrow> Some (v, p'))
      else
        let dpiX = int_cast (logicalDotsPerInch h);
            isHiDpi = (dpiX > 96);
            penSaved = getPen p;
            p1 = (if isHiDpi then setPen in_drawLayer1 (penSaved\<lparr>pen_width := Width01\<rparr>) p else p)
        in case (if isGridOn v then
                   (case drawMetaGrid h v p1 of
                      None \<Rightarrow> None
                    | Some (v1, p2) \<Rightarrow> Some (drawGrid v1 p2))
                 else Some (v, p1)) of
             None \<Rightarrow> None
           | Some (v2, p3) \<Rightarrow>
               let p4 = (if draftMode v2 then drawDraftSign h v2 p3 else p3);
                   p5 = (if isHiDpi then setPen in_drawLayer1 penSaved p4 else p4)
               in Some (v2, p5))"


subsection \<open>Auxiliary notions for the statements\<close>

text \<open>The calls made on the painter between two of its states.\<close>

definition calls_since :: "RS_Painter \<Rightarrow> RS_Painter \<Rightarrow> (member \<times> painter_call) list" where
  "calls_since p p' = drop (length (calls p)) (calls p')"

text \<open>Between two states of the painter, only the member \<open>m\<close> has made calls.\<close>

definition issues_only :: "member \<Rightarrow> RS_Painter \<Rightarrow> RS_Painter \<Rightarrow> bool" where
  "issues_only m p p' \<longleftrightarrow> (\<exists>cs. calls p' = calls p @ cs \<and> (\<forall>e \<in> set cs. fst e = m))"

text \<open>The invariant of the view history.\<close>

definition history_inv :: "RS_GraphicView \<Rightarrow> bool" where
  "history_inv v \<longleftrightarrow>
     length (savedViews v) = 16 \<and> savedViewIndex v < 16 \<and> savedViewCount v \<le> 16"

subsection \<open>A concrete view\<close>

text \<open>
  An 800 by 600 view of a drawing of 100 by 50 units, freshly constructed, with an
  orthogonal grid, and a second drawing that is a single point.
\<close>

definition demo_graphic :: RS_Graphic where
  "demo_graphic =
     \<lparr>isGridOn_graphic = True, getPaperScale = 1,
      getPaperInsertionBase = \<lparr>vec_x = 0, vec_y = 0\<rparr>,
      getPrintAreaSize = \<lparr>vec_x = 210, vec_y = 297\<rparr>,
      getMarginLeftInUnits = 10, getMarginTopInUnits = 10,
      getMarginRightInUnits = 10, getMarginBottomInUnits = 10,
      getPagesNumHoriz = 1, getPagesNumVert = 1\<rparr>"

definition demo_container :: RS_EntityContainer where
  "demo_container =
     \<lparr>getMin = \<lparr>vec_x = 0, vec_y = 0\<rparr>, getMax = \<lparr>vec_x = 100, vec_y = 50\<rparr>,
      getSize = \<lparr>vec_x = 100, vec_y = 50\<rparr>, rtti = EntityGraphic, modified = False,
      getGraphic = Some demo_graphic\<rparr>"

definition point_container :: RS_EntityContainer where
  "point_container =
     \<lparr>getMin = \<lparr>vec_x = 3, vec_y = 4\<rparr>, getMax = \<lparr>vec_x = 3, vec_y = 4\<rparr>,
      getSize = \<lparr>vec_x = 0, vec_y = 0\<rparr>, rtti = EntityGraphic, modified = False,
      getGraphic = Some demo_graphic\<rparr>"

definition demo_grid :: RS_Grid where
  "demo_grid =
     \<lparr>getMetaX = [0], getMetaY = [0], getPoints = [\<lparr>vec_x = 10, vec_y = 10\<rparr>],
      getCellVector = \<lparr>vec_x = 10, vec_y = 10\<rparr>,
      getMetaGridWidth = \<lparr>vec_x = 100, vec_y = 100\<rparr>,
      isIsometric = False, getInfo = ''10 / 100''\<rparr>"

definition demo_view :: RS_GraphicView where
  "demo_view =
     \<lparr>offsetX = 10, offsetY = 20, factor = \<lparr>vec_x = 2, vec_y = 2\<rparr>,
      getWidth = 800, getHeight = 600,
      borderLeft = 0, borderTop = 0, borderRight = 0, borderBottom = 0,
      zoomFrozen = False, container = Some demo_container,
      savedViews = replicate 16 (0, 0, \<lparr>vec_x = 1, vec_y = 1\<rparr>),
      savedViewIndex = 0, savedViewCount = 0, previousViewTime = 0,
      printPreview = False, draftMode = False, gridType = 0, grid = demo_grid,
      gridColor = Qt_gray, metaGridColor = RS_Color 64 64 64, gui_calls = []\<rparr>"

definition demo_host :: host where
  "demo_host = \<lparr>updatePointArray = (\<lambda>v g. g), logicalDotsPerInch = 96, tr = (\<lambda>t. t)\<rparr>"

definition demo_painter :: RS_Painter where
  "demo_painter =
     \<lparr>getPen = \<lparr>pen_color = RS_Color 0 0 0, pen_width = Width00, pen_lineType = SolidLine\<rparr>,
      textBoundingRect = (\<lambda>r t. r), calls = []\<rparr>"


subsection \<open>The coordinate transforms in double precision\<close>

text \<open>The power \<open>2 ^ k\<close> for an integer \<open>k\<close> of either sign.\<close>

definition pow2 :: "int \<Rightarrow> real" where
  "pow2 k = (if 0 \<le> k then 2 ^ nat k else 1 / 2 ^ nat (- k))"

text \<open>
  The binary exponent of a real \<open>x \<noteq> 0\<close> is the integer \<open>e\<close> with
  \<open>2 ^ e \<le> \<bar>x\<bar> < 2 ^ (e + 1)\<close>. It is found by halving a number that is at least
  \<open>2\<close> and by doubling a positive number below \<open>1\<close>.
\<close>

function exponent_up :: "real \<Rightarrow> int" where
  "exponent_up x = (if 2 \<le> x then exponent_up (x / 2) + 1 else 0)"
  by pat_completeness auto
termination
proof (relation "measure (\<lambda>x. nat \<lfloor>x\<rfloor>)")
  show "wf (measure (\<lambda>x. nat \<lfloor>x\<rfloor>))" by simp
next
  fix x :: real
  assume x: "2 \<le> x"
  then have "x / 2 \<le> x - 1" by simp
  then have "\<lfloor>x / 2\<rfloor> \<le> \<lfloor>x - 1\<rfloor>" by (rule floor_mono)
  then have "\<lfloor>x / 2\<rfloor> < \<lfloor>x\<rfloor>" by simp
  moreover have "0 < \<lfloor>x\<rfloor>" using x by simp
  ultimately show "(x / 2, x) \<in> measure (\<lambda>x. nat \<lfloor>x\<rfloor>)" by simp
qed

declare exponent_up.simps [simp del]

function exponent_down :: "real \<Rightarrow> int" where
  "exponent_down x = (if 0 < x \<and> x < 1 then exponent_down (2 * x) - 1 else 0)"
  by pat_completeness auto
termination
proof (relation "measure (\<lambda>x. nat \<lceil>1 / x\<rceil>)")
  show "wf (measure (\<lambda>x. nat \<lceil>1 / x\<rceil>))" by simp
next
  fix x :: real
  assume x: "0 < x \<and> x < 1"
  then have t: "1 < 1 / x" by simp
  then have c: "2 \<le> \<lceil>1 / x\<rceil>" by linarith
  have "1 / (2 * x) = (1 / x) / 2" by simp
  also have "\<dots> \<le> real_of_int \<lceil>1 / x\<rceil> / 2" by (simp add: divide_right_mono)
  also have "\<dots> \<le> real_of_int (\<lceil>1 / x\<rceil> - 1)" using c by simp
  finally have "\<lceil>1 / (2 * x)\<rceil> \<le> \<lceil>1 / x\<rceil> - 1" by (rule ceiling_le)
  with c x show "(2 * x, x) \<in> measure (\<lambda>x. nat \<lceil>1 / x\<rceil>)" by simp
qed

declare exponent_down.simps [simp del]

definition exponent :: "real \<Rightarrow> int" where
  "exponent x = (if 1 \<le> \<bar>x\<bar> then exponent_up \<bar>x\<bar> else exponent_down \<bar>x\<bar>)"

text \<open>
  Rounding to \<^verbatim>\<open>double\<close> (IEEE 754 binary64, round to nearest, ties to even). The
  doubles around \<open>x\<close> are the integer multiples of \<open>ulp\<close>, which is \<open>2 ^ (e - 52)\<close>
  for the 53-bit significand of a normal number of exponent \<open>e\<close> and \<open>2 ^ (- 1074)\<close>
  for a subnormal one. A rounded value of magnitude \<open>2 ^ 1024\<close> or more is an infinity
  in C++: \<open>None\<close>.
\<close>

definition round_double :: "real \<Rightarrow> real option" where
  "round_double x =
     (let ulp = pow2 (max (exponent x - 52) (- 1074));
          r = real_of_int (nearest_even (x / ulp)) * ulp
      in if \<bar>r\<bar> < pow2 1024 then Some r else None)"

text \<open>A real is a (finite) double when rounding leaves it as it is.\<close>

definition is_double :: "real \<Rightarrow> bool" where
  "is_double x \<longleftrightarrow> round_double x = Some x"

text \<open>
  \<^verbatim>\<open>toGuiX\<close> and \<^verbatim>\<open>toGuiY\<close> as the code computes them, on doubles \<open>x\<close> and \<open>y\<close> and
  a factor that is a double: each product, sum and difference is rounded, in the order
  of evaluation of the C++ expression, and so is the conversion of an \<^verbatim>\<open>int\<close> operand
  (which is exact for a 32-bit \<^verbatim>\<open>int\<close>). The unary minus is exact.
\<close>

definition toGuiX_double :: "RS_GraphicView \<Rightarrow> real \<Rightarrow> real option" where
  "toGuiX_double v x =
     (case round_double (x * vec_x (factor v)) of
        None \<Rightarrow> None
      | Some a \<Rightarrow>
         (case round_double (real_of_int (offsetX v)) of
            None \<Rightarrow> None
          | Some b \<Rightarrow> round_double (a + b)))"

definition toGuiY_double :: "RS_GraphicView \<Rightarrow> real \<Rightarrow> real option" where
  "toGuiY_double v y =
     (case round_double (- y * vec_y (factor v)) of
        None \<Rightarrow> None
      | Some a \<Rightarrow>
         (case round_double (real_of_int (getHeight v)) of
            None \<Rightarrow> None
          | Some h \<Rightarrow>
             (case round_double (a + h) of
                None \<Rightarrow> None
              | Some b \<Rightarrow>
                 (case round_double (real_of_int (offsetY v)) of
                    None \<Rightarrow> None
                  | Some c \<Rightarrow> round_double (b - c)))))"

section \<open>Properties\<close>

subsection \<open>The coordinate transforms\<close>

text \<open>
  Claim C1. For a view whose factors in x and in y are not zero and for an integer screen
  coordinate pair \<open>(x, y)\<close>, mapping the screen coordinate to the model and back is the
  identity in exact arithmetic: \<open>toGuiX (toGraphX x) = x\<close> and
  \<open>toGuiY (toGraphY y) = y\<close>.
\<close>

theorem toGui_toGraph_roundtrip:
  assumes "vec_x (factor v) \<noteq> 0" and "vec_y (factor v) \<noteq> 0"
  shows "toGuiX v (toGraphX v x) = real_of_int x \<and> toGuiY v (toGraphY v y) = real_of_int y"
  using assms by (simp add: toGuiX_def toGuiY_def toGraphX_def toGraphY_def)

theorem toGui_toGraph_roundtrip_witness:
  "vec_x (factor demo_view) \<noteq> 0 \<and> vec_y (factor demo_view) \<noteq> 0 \<and>
   toGraphX demo_view 5 = - 5 / 2 \<and> toGuiX demo_view (toGraphX demo_view 5) = 5 \<and>
   toGraphY demo_view 7 = 573 / 2 \<and> toGuiY demo_view (toGraphY demo_view 7) = 7"
proof -
  have x: "vec_x (factor demo_view) \<noteq> 0" and y: "vec_y (factor demo_view) \<noteq> 0"
    by (simp_all add: demo_view_def)
  have g: "toGraphX demo_view 5 = - 5 / 2" "toGraphY demo_view 7 = 573 / 2"
    by (simp_all add: demo_view_def toGraphX_def toGraphY_def)
  from toGui_toGraph_roundtrip [OF x y, of 5 7]
  have r: "toGuiX demo_view (toGraphX demo_view 5) = 5"
    "toGuiY demo_view (toGraphY demo_view 7) = 7"
    by simp_all
  from x y g r show ?thesis by blast
qed

text \<open>
  Claim C7, as amended. Over exact real arithmetic, the map from model to pixels flips the
  y axis: with a positive factor in y, \<open>toGuiY\<close> is strictly decreasing (for model
  coordinates \<open>y1 < y2\<close>, \<open>toGuiY y1 > toGuiY y2\<close>), and with a positive factor in x,
  \<open>toGuiX\<close> is strictly increasing. In the \<^verbatim>\<open>double\<close> arithmetic of the code the order
  is not strict, as the evaluation after the theorem shows.
\<close>

theorem toGui_monotone:
  "(0 < vec_y (factor v) \<longrightarrow> y1 < y2 \<longrightarrow> toGuiY v y2 < toGuiY v y1) \<and>
   (0 < vec_x (factor v) \<longrightarrow> x1 < x2 \<longrightarrow> toGuiX v x1 < toGuiX v x2)"
  by (simp add: toGuiX_def toGuiY_def)

theorem toGui_monotone_witness:
  "0 < vec_y (factor demo_view) \<and> 0 < vec_x (factor demo_view) \<and>
   toGuiY demo_view 3 = 574 \<and> toGuiY demo_view 1 = 578 \<and>
   toGuiY demo_view 3 < toGuiY demo_view 1 \<and> toGuiX demo_view 1 < toGuiX demo_view 3"
proof -
  have f: "0 < vec_y (factor demo_view)" "0 < vec_x (factor demo_view)"
    by (simp_all add: demo_view_def)
  have g: "toGuiY demo_view 3 = 574" "toGuiY demo_view 1 = 578"
    by (simp_all add: demo_view_def toGuiY_def)
  from f toGui_monotone [of demo_view 1 3 1 3]
  have r: "toGuiY demo_view 3 < toGuiY demo_view 1" "toGuiX demo_view 1 < toGuiX demo_view 3"
    by simp_all
  from f g r show ?thesis by blast
qed

lemmas double_eval =
  round_double_def exponent_def exponent_up.simps exponent_down.simps pow2_def
  nearest_even_def Let_def

text \<open>
  Claim C7 as stated fails in the arithmetic of the code. In the concrete view (factors
  \<open>2\<close>, height \<open>600\<close>, offsets \<open>10\<close> and \<open>20\<close>) the doubles \<open>1\<close> and \<open>1 + 1 / 2 ^ 52\<close>
  are distinct model coordinates, and both are mapped to \<open>578\<close> by \<^verbatim>\<open>toGuiY\<close> and to
  \<open>12\<close> by \<^verbatim>\<open>toGuiX\<close>: the sums \<open>598 - 1 / 2 ^ 51\<close> and \<open>12 + 1 / 2 ^ 51\<close> round to
  \<open>598\<close> and \<open>12\<close>. A compiler that fuses the product and the first sum into one
  rounded operation computes the same values.
\<close>

theorem toGui_double_not_strict:
  "0 < vec_y (factor demo_view) \<and> 0 < vec_x (factor demo_view) \<and>
   is_double 1 \<and> is_double (1 + 1 / 2 ^ 52) \<and> (1::real) < 1 + 1 / 2 ^ 52 \<and>
   toGuiY_double demo_view 1 = Some 578 \<and>
   toGuiY_double demo_view (1 + 1 / 2 ^ 52) = Some 578 \<and>
   toGuiX_double demo_view 1 = Some 12 \<and>
   toGuiX_double demo_view (1 + 1 / 2 ^ 52) = Some 12 \<and>
   \<not> the (toGuiY_double demo_view (1 + 1 / 2 ^ 52)) < the (toGuiY_double demo_view 1) \<and>
   \<not> the (toGuiX_double demo_view 1) < the (toGuiX_double demo_view (1 + 1 / 2 ^ 52))"
proof -
  have f: "0 < vec_y (factor demo_view)" "0 < vec_x (factor demo_view)"
    by (simp_all add: demo_view_def)
  have d: "is_double 1" "is_double (1 + 1 / 2 ^ 52)"
    by (simp_all add: is_double_def double_eval)
  have lt: "(1::real) < 1 + 1 / 2 ^ 52" by simp
  have y1: "toGuiY_double demo_view 1 = Some 578"
    by (simp add: toGuiY_double_def demo_view_def double_eval)
  have y2: "toGuiY_double demo_view (1 + 1 / 2 ^ 52) = Some 578"
    by (simp add: toGuiY_double_def demo_view_def double_eval)
  have x1: "toGuiX_double demo_view 1 = Some 12"
    by (simp add: toGuiX_double_def demo_view_def double_eval)
  have x2: "toGuiX_double demo_view (1 + 1 / 2 ^ 52) = Some 12"
    by (simp add: toGuiX_double_def demo_view_def double_eval)
  have ny: "\<not> the (toGuiY_double demo_view (1 + 1 / 2 ^ 52)) < the (toGuiY_double demo_view 1)"
    unfolding y1 y2 by simp
  have nx: "\<not> the (toGuiX_double demo_view 1) < the (toGuiX_double demo_view (1 + 1 / 2 ^ 52))"
    unfolding x1 x2 by simp
  from f d lt y1 y2 x1 x2 ny nx show ?thesis by (intro conjI)
qed

subsection \<open>The zoom factors\<close>

text \<open>
  Claim C10. \<open>setFactorX\<close> and \<open>setFactorY\<close> never store a negative factor and respect
  the freeze of the zoom: for every real \<open>f\<close>, when the zoom is not frozen the factor in
  x after \<open>setFactorX f\<close> is the absolute value of \<open>f\<close> (likewise \<open>setFactorY\<close> for the
  factor in y), and when the zoom is frozen, as it is after \<open>freezeZoom True\<close>, both calls
  leave the factor unchanged.
\<close>

theorem setFactor_abs_and_freeze:
  "(\<not> zoomFrozen v \<longrightarrow>
      vec_x (factor (setFactorX f v)) = \<bar>f\<bar> \<and> 0 \<le> vec_x (factor (setFactorX f v)) \<and>
      vec_y (factor (setFactorY f v)) = \<bar>f\<bar> \<and> 0 \<le> vec_y (factor (setFactorY f v))) \<and>
   (zoomFrozen v \<longrightarrow> factor (setFactorX f v) = factor v \<and> factor (setFactorY f v) = factor v) \<and>
   factor (setFactorX f (freezeZoom True v)) = factor v \<and>
   factor (setFactorY f (freezeZoom True v)) = factor v"
  by (simp add: setFactorX_def setFactorY_def freezeZoom_def)

theorem setFactor_abs_and_freeze_witness:
  "\<not> zoomFrozen demo_view \<and> vec_x (factor (setFactorX (- 3) demo_view)) = 3 \<and>
   vec_y (factor (setFactorY (- 3) demo_view)) = 3 \<and>
   zoomFrozen (freezeZoom True demo_view) \<and>
   factor (setFactorX (- 3) (freezeZoom True demo_view)) = \<lparr>vec_x = 2, vec_y = 2\<rparr> \<and>
   factor (setFactorY (- 3) (freezeZoom True demo_view)) = \<lparr>vec_x = 2, vec_y = 2\<rparr>"
proof -
  have n: "\<not> zoomFrozen demo_view" and z: "zoomFrozen (freezeZoom True demo_view)"
    and f: "factor demo_view = \<lparr>vec_x = 2, vec_y = 2\<rparr>"
    and g: "factor (freezeZoom True demo_view) = \<lparr>vec_x = 2, vec_y = 2\<rparr>"
    by (simp_all add: demo_view_def freezeZoom_def)
  from n z f g setFactor_abs_and_freeze [of demo_view "- 3"]
    setFactor_abs_and_freeze [of "freezeZoom True demo_view" "- 3"]
  show ?thesis by simp
qed

subsection \<open>The view history\<close>

lemma saveView_history_inv:
  assumes "history_inv v"
  shows "\<exists>v'. saveView now1 now2 v = Some v' \<and> history_inv v'"
  using assms
  by (auto simp add: saveView_def history_inv_def call_gui_def Let_def split: option.splits)

lemma restoreView_history_inv:
  assumes "history_inv v"
  shows "\<exists>v'. restoreView v = Some v' \<and> history_inv v'"
  using assms
  by (auto simp add: restoreView_def history_inv_def call_gui_def Let_def)

lemma history_run_inv:
  "history_inv v \<Longrightarrow> \<exists>v'. history_run cs v = Some v' \<and> history_inv v'"
proof (induction cs arbitrary: v)
  case Nil
  then show ?case by simp
next
  case (Cons c cs)
  obtain v1 where s: "history_step c v = Some v1" and i: "history_inv v1"
    using Cons.prems saveView_history_inv restoreView_history_inv by (cases c) fastforce+
  from Cons.IH [OF i] s show ?case by simp
qed

text \<open>
  Claim C2. The view history is a bounded ring buffer: starting from the freshly
  constructed view (no saved view, index \<open>0\<close>, 16 slots), every sequence of calls of
  \<open>saveView\<close> and \<open>restoreView\<close> runs to its end, and in the state it reaches
  \<open>savedViewCount\<close> is between \<open>0\<close> and \<open>16\<close> and \<open>savedViewIndex\<close> is at least \<open>0\<close> and
  below \<open>16\<close>.
\<close>

theorem history_bounded:
  assumes "constructed v"
  shows "\<exists>v'. history_run cs v = Some v' \<and>
               0 \<le> int (savedViewCount v') \<and> savedViewCount v' \<le> 16 \<and>
               0 \<le> int (savedViewIndex v') \<and> savedViewIndex v' < 16"
proof -
  from assms have "history_inv v" by (simp add: constructed_def history_inv_def)
  from history_run_inv [OF this, of cs] show ?thesis by (auto simp add: history_inv_def)
qed

theorem history_bounded_witness:
  "constructed demo_view \<and>
   (\<exists>v'. history_run [SaveView 1000 1001, SaveView 1200 1201, SaveView 2000 2001,
                       RestoreView, RestoreView, RestoreView] demo_view = Some v' \<and>
         savedViewCount v' \<le> 16 \<and> savedViewIndex v' < 16)"
proof -
  have c: "constructed demo_view" by (simp add: constructed_def demo_view_def)
  from history_bounded [OF c] c show ?thesis by blast
qed







text \<open>
  Claim C8. \<open>saveView\<close> throttles repeated saves: in a view state whose previously
  recorded view time is within 500 milliseconds of the current time, \<open>saveView\<close> leaves
  \<open>savedViews\<close>, \<open>savedViewIndex\<close> and \<open>savedViewCount\<close> unchanged. The save is dropped
  silently: nothing of the view changes but its container, and of the container nothing
  but the flag \<open>modified\<close>, which is set when the container is a graphic.
\<close>

theorem saveView_throttled:
  assumes "previousViewTime v > now1 - 500"
  shows "\<exists>v'. saveView now1 now2 v = Some v' \<and>
     savedViews v' = savedViews v \<and> savedViewIndex v' = savedViewIndex v \<and>
     savedViewCount v' = savedViewCount v \<and>
     v'\<lparr>container := container v\<rparr> = v \<and>
     container v' =
       map_option (\<lambda>c. if rtti c = EntityGraphic then c\<lparr>modified := True\<rparr> else c) (container v)"
  using assms
  by (auto simp add: saveView_def view_getGraphic_def split: option.splits)

theorem saveView_throttled_witness:
  "previousViewTime (demo_view\<lparr>previousViewTime := 900\<rparr>) > 1000 - 500 \<and>
   (\<exists>v'. saveView 1000 1001 (demo_view\<lparr>previousViewTime := 900\<rparr>) = Some v' \<and>
      savedViews v' = savedViews demo_view \<and> savedViewIndex v' = 0 \<and> savedViewCount v' = 0 \<and>
      map_option modified (container v') = Some True)"
proof -
  let ?v = "demo_view\<lparr>previousViewTime := 900\<rparr>"
  have t: "previousViewTime ?v > 1000 - 500" by simp
  from saveView_throttled [OF t, of 1001] obtain v' where
    s: "saveView 1000 1001 ?v = Some v'"
    and f: "savedViews v' = savedViews ?v" "savedViewIndex v' = savedViewIndex ?v"
      "savedViewCount v' = savedViewCount ?v"
    and c: "container v' =
       map_option (\<lambda>c. if rtti c = EntityGraphic then c\<lparr>modified := True\<rparr> else c) (container ?v)"
    by blast
  have "savedViews v' = savedViews demo_view" using f(1) by simp
  moreover have "savedViewIndex v' = 0" using f(2) by (simp add: demo_view_def)
  moreover have "savedViewCount v' = 0" using f(3) by (simp add: demo_view_def)
  moreover have "map_option modified (container v') = Some True"
    unfolding c by (simp add: demo_view_def demo_container_def)
  ultimately show ?thesis using t s by blast
qed

text \<open>
  Claim C9. \<open>restoreView\<close> on an empty history is a no-op: with \<open>savedViewCount = 0\<close> it
  returns at once and leaves \<open>offsetX\<close>, \<open>offsetY\<close>, \<open>factor\<close>, \<open>savedViewIndex\<close> and
  \<open>savedViewCount\<close> unchanged; indeed it leaves the whole state unchanged and calls no
  hook of the host.
\<close>

theorem restoreView_empty_noop:
  assumes "savedViewCount v = 0"
  shows "\<exists>v'. restoreView v = Some v' \<and> offsetX v' = offsetX v \<and> offsetY v' = offsetY v \<and>
     factor v' = factor v \<and> savedViewIndex v' = savedViewIndex v \<and>
     savedViewCount v' = savedViewCount v \<and> v' = v"
  using assms by (simp add: restoreView_def)

theorem restoreView_empty_noop_witness:
  "savedViewCount demo_view = 0 \<and> restoreView demo_view = Some demo_view"
proof -
  have c: "savedViewCount demo_view = 0" by (simp add: demo_view_def)
  from restoreView_empty_noop [OF c] c show ?thesis by auto
qed


subsection \<open>Zoom to fit\<close>

text \<open>
  Claim C4. Zoom to fit on a degenerate drawing is a no-op on the viewport: for a
  container whose extent is at most \<open>RS_TOLERANCE\<close> in both x and y, \<open>zoomAuto\<close> returns
  and leaves both factors, both offsets and the history of saved views (\<open>savedViews\<close>,
  \<open>savedViewIndex\<close>, \<open>savedViewCount\<close>) unchanged.
\<close>

theorem zoomAuto_degenerate_noop:
  assumes "container v = Some c0"
    and "zoomAuto_sx axis (calculateBorders c0) \<le> RS_TOLERANCE"
    and "zoomAuto_sy axis (calculateBorders c0) \<le> RS_TOLERANCE"
  shows "\<exists>v'. zoomAuto RS_TOLERANCE RS_MAXDOUBLE calculateBorders now1 now2 axis
                 keepAspectRatio v = Some v' \<and>
     vec_x (factor v') = vec_x (factor v) \<and> vec_y (factor v') = vec_y (factor v) \<and>
     offsetX v' = offsetX v \<and> offsetY v' = offsetY v \<and>
     savedViews v' = savedViews v \<and> savedViewIndex v' = savedViewIndex v \<and>
     savedViewCount v' = savedViewCount v"
  using assms by (simp add: zoomAuto_def Let_def)

theorem zoomAuto_degenerate_noop_witness:
  "container (demo_view\<lparr>container := Some point_container\<rparr>) = Some point_container \<and>
   zoomAuto_sx True point_container \<le> 1 / 10 ^ 10 \<and>
   zoomAuto_sy True point_container \<le> 1 / 10 ^ 10 \<and>
   (\<exists>v'. zoomAuto (1 / 10 ^ 10) (10 ^ 10) (\<lambda>c. c) 1000 1001 True True
            (demo_view\<lparr>container := Some point_container\<rparr>) = Some v' \<and>
      vec_x (factor v') = 2 \<and> vec_y (factor v') = 2 \<and> offsetX v' = 10 \<and> offsetY v' = 20 \<and>
      savedViewCount v' = 0)"
proof -
  let ?v = "demo_view\<lparr>container := Some point_container\<rparr>"
  have c: "container ?v = Some point_container" by simp
  have x: "zoomAuto_sx True point_container \<le> 1 / 10 ^ 10"
    and y: "zoomAuto_sy True point_container \<le> 1 / 10 ^ 10"
    by (simp_all add: zoomAuto_sx_def zoomAuto_sy_def point_container_def vminus_def)
  from c x y zoomAuto_degenerate_noop
    [where v = ?v and ?c0.0 = point_container and axis = True
       and calculateBorders = "\<lambda>c. c" and RS_TOLERANCE = "1 / 10 ^ 10"
       and RS_MAXDOUBLE = "10 ^ 10" and ?now1.0 = 1000 and ?now2.0 = 1001
       and keepAspectRatio = True]
  obtain v' where
    z: "zoomAuto (1 / 10 ^ 10) (10 ^ 10) (\<lambda>c. c) 1000 1001 True True ?v = Some v'"
    and f: "vec_x (factor v') = vec_x (factor ?v)" "vec_y (factor v') = vec_y (factor ?v)"
      "offsetX v' = offsetX ?v" "offsetY v' = offsetY ?v" "savedViewCount v' = savedViewCount ?v"
    by blast
  have "vec_x (factor v') = 2" "vec_y (factor v') = 2" "offsetX v' = 10" "offsetY v' = 20"
    "savedViewCount v' = 0"
    unfolding f by (simp_all add: demo_view_def)
  with c x y z show ?thesis by auto
qed

lemma saveView_frame:
  assumes "saveView now1 now2 v = Some v1"
  shows "factor v1 = factor v \<and> zoomFrozen v1 = zoomFrozen v \<and>
         offsetX v1 = offsetX v \<and> offsetY v1 = offsetY v"
  using assms
  by (auto simp add: saveView_def call_gui_def view_getGraphic_def Let_def
        split: option.splits if_splits)

lemma centerOffsetX_frame:
  "factor (centerOffsetX v) = factor v \<and> zoomFrozen (centerOffsetX v) = zoomFrozen v"
  by (simp add: centerOffsetX_def split: option.splits)

lemma centerOffsetY_frame:
  "factor (centerOffsetY v) = factor v \<and> zoomFrozen (centerOffsetY v) = zoomFrozen v"
  by (simp add: centerOffsetY_def split: option.splits)

lemma call_gui_frame:
  "factor (call_gui g v) = factor v \<and> zoomFrozen (call_gui g v) = zoomFrozen v"
  by (simp add: call_gui_def)

lemma setFactors_factor:
  "\<not> zoomFrozen v \<Longrightarrow>
   factor (setFactorY fy (setFactorX fx v)) = \<lparr>vec_x = \<bar>fx\<bar>, vec_y = \<bar>fy\<bar>\<rparr>"
  by (simp add: setFactorX_def setFactorY_def)

lemma zoomAuto_keep_unfold:
  assumes c: "container v = Some c0"
    and sx: "zoomAuto_sx axis (calculateBorders c0) > tol"
    and sy: "zoomAuto_sy axis (calculateBorders c0) > tol"
  shows "zoomAuto tol maxd calculateBorders now1 now2 axis True v =
     (let w = v\<lparr>container := Some (calculateBorders c0)\<rparr>;
          m = min (real_of_int (getWidth v - borderLeft v - borderRight v)
                     / zoomAuto_sx axis (calculateBorders c0))
                  (real_of_int (getHeight v - borderTop v - borderBottom v)
                     / zoomAuto_sy axis (calculateBorders c0))
      in if m < tol \<or> m > maxd then Some w
         else (case saveView now1 now2 w of
                 None \<Rightarrow> None
               | Some w1 \<Rightarrow>
                   Some (call_gui Redraw (call_gui AdjustOffsetControls (centerOffsetY
                     (centerOffsetX (call_gui AdjustZoomControls
                       (setFactorY m (setFactorX m w1)))))))))"
  using assms by (simp add: zoomAuto_def Let_def)

text \<open>
  Claim C5. Zoom to fit keeps the aspect ratio when asked to: for a container whose
  extent exceeds \<open>RS_TOLERANCE\<close> in both x and y, with the zoom not frozen, when
  \<open>zoomAuto\<close> with \<open>keepAspectRatio\<close> true completes and has changed the factors, the
  factors in x and in y are equal, and their common value is the minimum of the factor
  that fits the width and the factor that fits the height. \<open>RS_TOLERANCE\<close>, a constant
  declared outside this file, is taken to be non-negative.
\<close>

theorem zoomAuto_keeps_aspect_ratio:
  assumes c: "container v = Some c0"
    and sx: "zoomAuto_sx axis (calculateBorders c0) > RS_TOLERANCE"
    and sy: "zoomAuto_sy axis (calculateBorders c0) > RS_TOLERANCE"
    and nf: "\<not> zoomFrozen v"
    and tol: "0 \<le> RS_TOLERANCE"
    and z: "zoomAuto RS_TOLERANCE RS_MAXDOUBLE calculateBorders now1 now2 axis True v = Some v'"
    and ch: "factor v' \<noteq> factor v"
  shows "vec_x (factor v') = vec_y (factor v') \<and>
     vec_x (factor v') =
       min (real_of_int (getWidth v - borderLeft v - borderRight v)
              / zoomAuto_sx axis (calculateBorders c0))
           (real_of_int (getHeight v - borderTop v - borderBottom v)
              / zoomAuto_sy axis (calculateBorders c0))"
proof -
  let ?w = "v\<lparr>container := Some (calculateBorders c0)\<rparr>"
  let ?m = "min (real_of_int (getWidth v - borderLeft v - borderRight v)
                   / zoomAuto_sx axis (calculateBorders c0))
                (real_of_int (getHeight v - borderTop v - borderBottom v)
                   / zoomAuto_sy axis (calculateBorders c0))"
  note u = zoomAuto_keep_unfold
    [where calculateBorders = calculateBorders and maxd = RS_MAXDOUBLE
       and ?now1.0 = now1 and ?now2.0 = now2, OF c sx sy]
  show ?thesis
  proof (cases "?m < RS_TOLERANCE \<or> ?m > RS_MAXDOUBLE")
    case True
    with u z have "v' = ?w" by (simp add: Let_def)
    with ch show ?thesis by simp
  next
    case False
    with u z obtain w1 where s: "saveView now1 now2 ?w = Some w1"
      and v': "v' = call_gui Redraw (call_gui AdjustOffsetControls (centerOffsetY
                 (centerOffsetX (call_gui AdjustZoomControls
                   (setFactorY ?m (setFactorX ?m w1))))))"
      by (auto simp add: Let_def split: option.splits)
    from saveView_frame [OF s] nf have "\<not> zoomFrozen w1" by simp
    then have "factor v' = \<lparr>vec_x = \<bar>?m\<bar>, vec_y = \<bar>?m\<bar>\<rparr>"
      unfolding v'
      by (simp add: call_gui_frame centerOffsetX_frame centerOffsetY_frame setFactors_factor)
    moreover from False tol have "0 \<le> ?m" by linarith
    ultimately show ?thesis by simp
  qed
qed


theorem zoomAuto_keeps_aspect_ratio_witness:
  "container demo_view = Some demo_container \<and>
   zoomAuto_sx False demo_container > 1 / 10 ^ 10 \<and>
   zoomAuto_sy False demo_container > 1 / 10 ^ 10 \<and>
   \<not> zoomFrozen demo_view \<and> (0::real) \<le> 1 / 10 ^ 10 \<and>
   (\<exists>v'. zoomAuto (1 / 10 ^ 10) (10 ^ 10) (\<lambda>c. c) 1000 1001 False True demo_view = Some v' \<and>
      factor v' \<noteq> factor demo_view \<and>
      vec_x (factor v') = vec_y (factor v') \<and> vec_x (factor v') = 8)"
proof -
  have c: "container demo_view = Some demo_container"
    and nf: "\<not> zoomFrozen demo_view"
    by (simp_all add: demo_view_def)
  have x: "zoomAuto_sx False demo_container > 1 / 10 ^ 10"
    and y: "zoomAuto_sy False demo_container > 1 / 10 ^ 10"
    by (simp_all add: zoomAuto_sx_def zoomAuto_sy_def demo_container_def)
  have t: "(0::real) \<le> 1 / 10 ^ 10" by simp
  obtain v' where
    z: "zoomAuto (1 / 10 ^ 10) (10 ^ 10) (\<lambda>c. c) 1000 1001 False True demo_view = Some v'"
    and f: "factor v' = \<lparr>vec_x = 8, vec_y = 8\<rparr>"
    by (auto simp add: zoomAuto_def zoomAuto_sx_def zoomAuto_sy_def demo_view_def
          demo_container_def saveView_def view_getGraphic_def call_gui_def centerOffsetX_def
          centerOffsetY_def setFactorX_def setFactorY_def Let_def)
  have ch: "factor v' \<noteq> factor demo_view" unfolding f by (simp add: demo_view_def)
  have m: "min (real_of_int (getWidth demo_view - borderLeft demo_view - borderRight demo_view)
                  / zoomAuto_sx False demo_container)
               (real_of_int (getHeight demo_view - borderTop demo_view - borderBottom demo_view)
                  / zoomAuto_sy False demo_container) = 8"
    by (simp add: zoomAuto_sx_def zoomAuto_sy_def demo_container_def demo_view_def)
  from c x y nf t z ch zoomAuto_keeps_aspect_ratio
    [where v = demo_view and ?c0.0 = demo_container and axis = False
       and calculateBorders = "\<lambda>c. c" and RS_TOLERANCE = "1 / 10 ^ 10"
       and RS_MAXDOUBLE = "10 ^ 10" and ?now1.0 = 1000 and ?now2.0 = 1001 and v' = v']
  have "vec_x (factor v') = vec_y (factor v') \<and> vec_x (factor v') = 8"
    unfolding m by blast
  with c x y nf t z ch show ?thesis by blast
qed

subsection \<open>The order of drawing in the first layer\<close>

lemma issues_only_refl: "issues_only m p p"
  by (simp add: issues_only_def)

lemma issues_only_trans:
  "issues_only m p q \<Longrightarrow> issues_only m q r \<Longrightarrow> issues_only m p r"
  unfolding issues_only_def
  by (metis Un_iff append.assoc set_append)

lemma issues_only_record_call: "issues_only m p (record_call m c p)"
  by (simp add: issues_only_def record_call_def)

lemma issues_only_setPen: "issues_only m p (setPen m pen p)"
  by (simp add: issues_only_def record_call_def setPen_def)

lemma issues_only_drawLine: "issues_only m p (drawLine m a b p)"
  by (simp add: issues_only_def record_call_def drawLine_def)

lemma issues_only_drawGridPoint: "issues_only m p (drawGridPoint m a p)"
  by (simp add: issues_only_def record_call_def drawGridPoint_def)

lemma issues_only_fold:
  assumes "\<And>x q. issues_only m q (f x q)"
  shows "issues_only m p (fold f xs p)"
proof (induction xs arbitrary: p)
  case Nil
  show ?case by (simp add: issues_only_refl)
next
  case (Cons x xs)
  have "issues_only m p (f x p)" by (rule assms)
  moreover have "issues_only m (f x p) (fold f xs (f x p))" by (rule Cons.IH)
  ultimately show ?case by (simp add: issues_only_trans [of m p "f x p"])
qed

text \<open>The loop of the isometric meta grid: computation induction along the countdown.\<close>

lemma issues_only_isometricLines:
  "issues_only in_drawMetaGrid p (isometricLines dx dy cmx cmy i vps p)"
proof (induction dx dy cmx cmy i vps p rule: isometricLines.induct)
  case (1 dx dy cmx cmy i vp0 vp1 vp2 vp3 p)
  show ?case
  proof (cases "0 \<le> i")
    case False
    then show ?thesis by (simp add: isometricLines.simps issues_only_refl)
  next
    case True
    let ?vp0 = "(if i \<le> cmx then vp0\<lparr>vec_x := vec_x vp0 + dx\<rparr>
                 else vp0\<lparr>vec_y := vec_y vp0 - dy\<rparr>)"
    let ?vp2 = "(if i \<le> cmx then vp2\<lparr>vec_y := vec_y vp2 - dy\<rparr>
                 else vp2\<lparr>vec_x := vec_x vp2 - dx\<rparr>)"
    let ?vp1 = "(if i \<le> cmy then vp1\<lparr>vec_y := vec_y vp1 - dy\<rparr>
                 else vp1\<lparr>vec_x := vec_x vp1 + dx\<rparr>)"
    let ?vp3 = "(if i \<le> cmy then vp3\<lparr>vec_x := vec_x vp3 - dx\<rparr>
                 else vp3\<lparr>vec_y := vec_y vp3 - dy\<rparr>)"
    let ?q = "drawLine in_drawMetaGrid ?vp2 ?vp3 (drawLine in_drawMetaGrid ?vp0 ?vp1 p)"
    have ih: "issues_only in_drawMetaGrid ?q
       (isometricLines dx dy cmx cmy (i - 1) (?vp0, ?vp1, ?vp2, ?vp3) ?q)"
      by (rule "1.IH" [OF True refl refl refl refl])
    have "issues_only in_drawMetaGrid p ?q"
      by (rule issues_only_trans [OF issues_only_drawLine issues_only_drawLine])
    with ih have "issues_only in_drawMetaGrid p
       (isometricLines dx dy cmx cmy (i - 1) (?vp0, ?vp1, ?vp2, ?vp3) ?q)"
      by (rule issues_only_trans [rotated])
    moreover have "isometricLines dx dy cmx cmy i (vp0, vp1, vp2, vp3) p =
        isometricLines dx dy cmx cmy (i - 1) (?vp0, ?vp1, ?vp2, ?vp3) ?q"
      using True by (subst isometricLines.simps) (simp only: Let_def if_True)
    ultimately show ?thesis by simp
  qed
qed

lemma then_setPen: "issues_only m p q \<Longrightarrow> issues_only m p (setPen m pen q)"
  by (rule issues_only_trans [OF _ issues_only_setPen])

lemma then_drawLine: "issues_only m p q \<Longrightarrow> issues_only m p (drawLine m a b q)"
  by (rule issues_only_trans [OF _ issues_only_drawLine])

lemma then_drawGridPoint: "issues_only m p q \<Longrightarrow> issues_only m p (drawGridPoint m a q)"
  by (rule issues_only_trans [OF _ issues_only_drawGridPoint])

lemma then_fold:
  "issues_only m p q \<Longrightarrow> (\<And>x r. issues_only m r (f x r)) \<Longrightarrow> issues_only m p (fold f xs q)"
  by (rule issues_only_trans [OF _ issues_only_fold])

lemma then_isometricLines:
  "issues_only in_drawMetaGrid p q \<Longrightarrow>
   issues_only in_drawMetaGrid p (isometricLines dx dy cmx cmy i vps q)"
  by (rule issues_only_trans [OF _ issues_only_isometricLines])

lemmas issues_only_intros =
  issues_only_refl then_setPen then_drawLine then_drawGridPoint then_fold then_isometricLines

lemma issues_only_drawMetaGrid:
  assumes "drawMetaGrid h v p = Some (v', p')"
  shows "issues_only in_drawMetaGrid p p'"
  using assms unfolding drawMetaGrid_def Let_def
  by (auto split: if_splits simp del: fold_simps intro!: issues_only_intros)

lemma issues_only_drawGrid: "issues_only in_drawGrid p (snd (drawGrid v p))"
  unfolding drawGrid_def Let_def
  by (auto simp del: fold_simps intro!: issues_only_intros)

lemma issues_only_draftSign_loop:
  "issues_only in_drawDraftSign q
     (snd (fold (\<lambda>i (r, q).
                 case drawText in_drawDraftSign r t q of
                   (r1, q1) \<Rightarrow> (g i r1, q1)) xs (r0, q)))"
proof (induction xs arbitrary: r0 q)
  case Nil
  show ?case by (simp add: issues_only_refl)
next
  case (Cons i xs)
  have "issues_only in_drawDraftSign q (record_call in_drawDraftSign (DrawText r0 t) q)"
    by (rule issues_only_record_call)
  moreover have "issues_only in_drawDraftSign (record_call in_drawDraftSign (DrawText r0 t) q)
     (snd (fold (\<lambda>i (r, q).
                 case drawText in_drawDraftSign r t q of
                   (r1, q1) \<Rightarrow> (g i r1, q1)) xs
            (g i (textBoundingRect q r0 t), record_call in_drawDraftSign (DrawText r0 t) q)))"
    by (rule Cons.IH)
  ultimately show ?case
    by (simp add: drawText_def issues_only_trans
          [of _ q "record_call in_drawDraftSign (DrawText r0 t) q"])
qed

lemma issues_only_drawDraftSign: "issues_only in_drawDraftSign p (drawDraftSign h v p)"
  unfolding drawDraftSign_def Let_def by (rule issues_only_draftSign_loop)

text \<open>
  Outside the print preview and with the grid on, the calls of one \<open>drawLayer1\<close> are: calls
  of \<open>drawLayer1\<close> itself, then those of \<open>drawMetaGrid\<close>, then those of \<open>drawGrid\<close>, then
  those of \<open>drawDraftSign\<close> and of \<open>drawLayer1\<close> itself.
\<close>

lemma drawLayer1_split:
  assumes np: "\<not> printPreview v" and on: "isGridOn v"
    and d: "drawLayer1 h v p = Some (v', p')"
  shows "\<exists>A M G D. calls p' = calls p @ A @ M @ G @ D \<and>
     (\<forall>e \<in> set A. fst e = in_drawLayer1) \<and>
     (\<forall>e \<in> set M. fst e = in_drawMetaGrid) \<and>
     (\<forall>e \<in> set G. fst e = in_drawGrid) \<and>
     (\<forall>e \<in> set D. fst e = in_drawDraftSign \<or> fst e = in_drawLayer1)"
proof -
  define hi where "hi \<longleftrightarrow> int_cast (logicalDotsPerInch h) > 96"
  define p1 where
    "p1 = (if hi then setPen in_drawLayer1 ((getPen p)\<lparr>pen_width := Width01\<rparr>) p else p)"
  from d np on obtain v1 p2 where m: "drawMetaGrid h v p1 = Some (v1, p2)"
    and p': "p' = (let p4 = (if draftMode (fst (drawGrid v1 p2))
                             then drawDraftSign h (fst (drawGrid v1 p2)) (snd (drawGrid v1 p2))
                             else snd (drawGrid v1 p2))
                   in if hi then setPen in_drawLayer1 (getPen p) p4 else p4)"
    unfolding drawLayer1_def Let_def hi_def p1_def
    by (auto split: option.splits prod.splits if_splits)
  define p3 where "p3 = snd (drawGrid v1 p2)"
  define p4 where "p4 = (if draftMode (fst (drawGrid v1 p2))
                         then drawDraftSign h (fst (drawGrid v1 p2)) p3 else p3)"
  have p5: "p' = (if hi then setPen in_drawLayer1 (getPen p) p4 else p4)"
    using p' by (simp add: Let_def p4_def p3_def)
  have "issues_only in_drawLayer1 p p1"
    by (simp add: p1_def issues_only_refl issues_only_setPen)
  then obtain A where A: "calls p1 = calls p @ A" "\<forall>e \<in> set A. fst e = in_drawLayer1"
    unfolding issues_only_def by blast
  from issues_only_drawMetaGrid [OF m]
  obtain M where M: "calls p2 = calls p1 @ M" "\<forall>e \<in> set M. fst e = in_drawMetaGrid"
    unfolding issues_only_def by blast
  from issues_only_drawGrid [of p2 v1]
  obtain G where G: "calls p3 = calls p2 @ G" "\<forall>e \<in> set G. fst e = in_drawGrid"
    unfolding issues_only_def p3_def by blast
  have "issues_only in_drawDraftSign p3 p4"
    by (simp add: p4_def issues_only_refl issues_only_drawDraftSign)
  then obtain D1 where D1: "calls p4 = calls p3 @ D1" "\<forall>e \<in> set D1. fst e = in_drawDraftSign"
    unfolding issues_only_def by blast
  have "issues_only in_drawLayer1 p4 p'"
    by (simp add: p5 issues_only_refl issues_only_setPen)
  then obtain D2 where D2: "calls p' = calls p4 @ D2" "\<forall>e \<in> set D2. fst e = in_drawLayer1"
    unfolding issues_only_def by blast
  have "calls p' = calls p @ A @ M @ G @ (D1 @ D2)"
    by (simp add: A(1) M(1) G(1) D1(1) D2(1))
  moreover have "\<forall>e \<in> set (D1 @ D2). fst e = in_drawDraftSign \<or> fst e = in_drawLayer1"
    using D1(2) D2(2) by auto
  ultimately show ?thesis using A(2) M(2) G(2) by blast
qed

lemma split_order:
  fixes L :: "(member \<times> 'a) list"
  assumes L: "L = A @ M @ G @ D"
    and A: "\<forall>e \<in> set A. fst e = in_drawLayer1"
    and M: "\<forall>e \<in> set M. fst e = in_drawMetaGrid"
    and G: "\<forall>e \<in> set G. fst e = in_drawGrid"
    and D: "\<forall>e \<in> set D. fst e = in_drawDraftSign \<or> fst e = in_drawLayer1"
    and i: "i < length L" "fst (L ! i) = in_drawMetaGrid"
    and j: "j < length L" "fst (L ! j) = in_drawGrid"
  shows "i < j"
proof -
  have tag: "\<And>k. k < length L \<Longrightarrow>
      fst (L ! k) = (if k < length A then in_drawLayer1
                     else if k < length A + length M then in_drawMetaGrid
                     else if k < length A + length M + length G then in_drawGrid
                     else fst (D ! (k - length A - length M - length G)))"
    using A M G unfolding L by (auto simp add: nth_append)
  have Dtag: "\<And>k. k < length L \<Longrightarrow> \<not> k < length A + length M + length G \<Longrightarrow>
      fst (L ! k) = in_drawDraftSign \<or> fst (L ! k) = in_drawLayer1"
  proof -
    fix k assume k: "k < length L" "\<not> k < length A + length M + length G"
    then have "k - length A - length M - length G < length D" unfolding L by auto
    then have "D ! (k - length A - length M - length G) \<in> set D" by simp
    with D tag [OF k(1)] k(2) show "fst (L ! k) = in_drawDraftSign \<or> fst (L ! k) = in_drawLayer1"
      by auto
  qed
  have "i < length A + length M"
    using tag [OF i(1)] Dtag [OF i(1)] i(2) by (auto split: if_splits)
  moreover have "length A + length M \<le> j"
    using tag [OF j(1)] Dtag [OF j(1)] j(2) by (auto split: if_splits)
  ultimately show ?thesis by simp
qed

text \<open>
  Claim C6. The layered draw order of the grid: in \<open>drawLayer1\<close>, in a state that is not
  a print preview and in which the grid is on, every call made on the painter by
  \<open>drawMetaGrid\<close> precedes every call made on it by \<open>drawGrid\<close>. Here \<open>i\<close> and \<open>j\<close> are
  positions among the calls of this one \<open>drawLayer1\<close>.
\<close>

theorem drawLayer1_metaGrid_before_grid:
  assumes "\<not> printPreview v" and "isGridOn v"
    and "drawLayer1 h v p = Some (v', p')"
    and "i < length (calls_since p p')" and "fst (calls_since p p' ! i) = in_drawMetaGrid"
    and "j < length (calls_since p p')" and "fst (calls_since p p' ! j) = in_drawGrid"
  shows "i < j"
proof -
  from drawLayer1_split [OF assms(1-3)] obtain A M G D where
    s: "calls p' = calls p @ A @ M @ G @ D"
    and t: "\<forall>e \<in> set A. fst e = in_drawLayer1" "\<forall>e \<in> set M. fst e = in_drawMetaGrid"
      "\<forall>e \<in> set G. fst e = in_drawGrid"
      "\<forall>e \<in> set D. fst e = in_drawDraftSign \<or> fst e = in_drawLayer1"
    by blast
  have "calls_since p p' = A @ M @ G @ D" by (simp add: calls_since_def s)
  from split_order [OF this t assms(4-7)] show ?thesis .
qed


theorem drawLayer1_metaGrid_before_grid_witness:
  "\<not> printPreview demo_view \<and> isGridOn demo_view \<and>
   (\<exists>v' p'. drawLayer1 demo_host demo_view demo_painter = Some (v', p') \<and>
      map fst (calls_since demo_painter p') =
        [in_drawMetaGrid, in_drawMetaGrid, in_drawMetaGrid, in_drawGrid, in_drawGrid] \<and>
      (2::nat) < 3)"
proof -
  have np: "\<not> printPreview demo_view" by (simp add: demo_view_def)
  have on: "isGridOn demo_view"
    by (simp add: isGridOn_def demo_view_def demo_container_def demo_graphic_def)
  obtain v' p' where d: "drawLayer1 demo_host demo_view demo_painter = Some (v', p')"
    and cs: "map fst (calls_since demo_painter p') =
        [in_drawMetaGrid, in_drawMetaGrid, in_drawMetaGrid, in_drawGrid, in_drawGrid]"
    by (simp add: drawLayer1_def drawMetaGrid_def drawGrid_def isGridOn_def int_cast_def
          demo_host_def demo_view_def demo_container_def demo_graphic_def demo_grid_def
          demo_painter_def calls_since_def setPen_def drawLine_def drawGridPoint_def
          record_call_def call_gui_def Let_def)
  have len: "length (calls_since demo_painter p') = 5"
    using arg_cong [OF cs, of length] by simp
  have i: "2 < length (calls_since demo_painter p')"
    and j: "3 < length (calls_since demo_painter p')"
    by (simp_all add: len)
  have ti: "fst (calls_since demo_painter p' ! 2) = in_drawMetaGrid"
    using nth_map [OF i, of fst] by (simp add: cs)
  have tj: "fst (calls_since demo_painter p' ! 3) = in_drawGrid"
    using nth_map [OF j, of fst] by (simp add: cs)
  from drawLayer1_metaGrid_before_grid [OF np on d i ti j tj]
  have lt: "(2::nat) < 3" .
  have "drawLayer1 demo_host demo_view demo_painter = Some (v', p') \<and>
      map fst (calls_since demo_painter p') =
        [in_drawMetaGrid, in_drawMetaGrid, in_drawMetaGrid, in_drawGrid, in_drawGrid] \<and>
      (2::nat) < 3"
    using d cs lt by (intro conjI)
  then have "\<exists>v' p'. drawLayer1 demo_host demo_view demo_painter = Some (v', p') \<and>
      map fst (calls_since demo_painter p') =
        [in_drawMetaGrid, in_drawMetaGrid, in_drawMetaGrid, in_drawGrid, in_drawGrid] \<and>
      (2::nat) < 3"
    by (intro exI)
  with np on show ?thesis by (intro conjI)
qed

end
